theory Spec2Isabelle
  imports Complex_Main "HOL-Library.Sublist"
begin

section \<open>The search component of \<open>src/felice-search-engine/src/Search.tsx\<close>\<close>

text \<open>
  The component keeps its state in React hooks and talks to two platform services that
  are not code of the repository: the \<open>URL\<close> constructor and the HTTP client. Both are
  parameters of the model:
  \<^item> \<open>urlParser\<close>: \<open>new URL(link).hostname\<close>, with \<open>None\<close> where the constructor throws
    its \<open>TypeError\<close> (the link does not parse as an absolute URL);
  \<^item> \<open>network\<close>: what \<open>axios.get\<close> settles to for a request.
  Strings are \<open>string\<close>; a \<open>char\<close> stands for a code unit below 256. A field of a raw
  API item is a string or is absent (\<open>undefined\<close>), so it is a \<open>string option\<close>. Numbers
  (pages, offsets, totals) are integers, as the API and the page buttons produce them.
\<close>

subsection \<open>Data\<close>

text \<open>A raw item of the API response (\<open>items: any[]\<close>): the fields the code reads.\<close>

record rawItem =
  item_name :: "string option"
  item_url :: "string option"
  item_snippet :: "string option"
  item_displayUrl :: "string option"
  item_contentUrl :: "string option"
  item_thumbnailUrl :: "string option"

text \<open>
  \<open>interface SearchResult\<close>. The object literal of \<open>filterResults\<close> copies raw fields, so
  at run time every field but \<open>faviconUrl\<close> can be \<open>undefined\<close>.
\<close>

record SearchResult =
  name :: "string option"
  url :: "string option"
  snippet :: "string option"
  displayUrl :: "string option"
  faviconUrl :: string
  contentUrl :: "string option"
  thumbnailUrl :: "string option"

datatype category = Web | Images

datatype jsError = TypeError | NetworkError

type_synonym urlParser = "string \<Rightarrow> string option"

text \<open>The hooks of \<open>SearchComponent\<close> (lines 16 to 23).\<close>

record session =
  query :: string
  results :: "SearchResult list"
  tab :: category
  currentPage :: int
  totalResults :: int
  loading :: bool
  error :: "string option"
  hasSearched :: bool

definition initialSession :: session where
  "initialSession =
     \<lparr>query = [], results = [], tab = Web, currentPage = 1, totalResults = 0,
      loading = False, error = None, hasSearched = False\<rparr>"

text \<open>The request of \<open>axios.get\<close>: the endpoint and the three query parameters.\<close>

record request =
  endpoint :: string
  param_q :: string
  param_count :: int
  param_offset :: int

record webPagesData =
  webPages_value :: "rawItem list option"
  webPages_totalEstimatedMatches :: "int option"

record responseData =
  data_value :: "rawItem list option"
  data_webPages :: "webPagesData option"
  data_totalEstimatedMatches :: "int option"

datatype reply = Rejected | Resolved responseData

type_synonym network = "request \<Rightarrow> reply"

subsection \<open>Constants\<close>

definition resultsPerPage :: int where
  "resultsPerPage = 20"

definition inappropriateKeywords :: "string list" where
  "inappropriateKeywords = [''keyword1'', ''keyword2'', ''keyword3'']"

definition excludedDomains :: "string list" where
  "excludedDomains = [''example.com'', ''anotherexample.com'']"

definition errorMessage :: string where
  "errorMessage = ''An error occurred while fetching search results.''"

subsection \<open>JavaScript operators on optional strings\<close>

text \<open>\<open>undefined\<close> and the empty string are falsy; every other string is truthy.\<close>

definition truthy :: "string option \<Rightarrow> bool" where
  "truthy v = (case v of None \<Rightarrow> False | Some s \<Rightarrow> s \<noteq> [])"

text \<open>\<open>a || b\<close>: \<open>a\<close> when it is truthy, otherwise \<open>b\<close> whatever it is.\<close>

definition jsOr :: "string option \<Rightarrow> string option \<Rightarrow> string option" where
  "jsOr a b = (if truthy a then a else b)"

text \<open>\<open>a || ''\<close>: always a string.\<close>

definition orEmpty :: "string option \<Rightarrow> string" where
  "orEmpty a = (case a of None \<Rightarrow> [] | Some s \<Rightarrow> (if s \<noteq> [] then s else []))"

text \<open>
  The conversion of an argument to a string, as the \<open>URL\<close> constructor does it:
  \<open>undefined\<close> becomes the text \<open>undefined\<close>.
\<close>

definition toUSVString :: "string option \<Rightarrow> string" where
  "toUSVString v = (case v of None \<Rightarrow> ''undefined'' | Some s \<Rightarrow> s)"

text \<open>
  \<open>String.prototype.toLowerCase\<close> on code units below 256: \<open>A\<close> to \<open>Z\<close> and the
  capital letters of Latin-1 (192 to 222 but the multiplication sign 215) move up by 32.
\<close>

definition lowerChar :: "char \<Rightarrow> char" where
  "lowerChar c =
     (let n = (of_char c :: nat)
      in if (65 \<le> n \<and> n \<le> 90) \<or> (192 \<le> n \<and> n \<le> 222 \<and> n \<noteq> 215)
         then char_of (n + 32) else c)"

definition toLowerCase :: "string \<Rightarrow> string" where
  "toLowerCase s = map lowerChar s"

text \<open>\<open>s.includes(k)\<close>: \<open>k\<close> occurs in \<open>s\<close> as a contiguous run, at some position.\<close>

fun includes_str :: "string \<Rightarrow> string \<Rightarrow> bool" where
  "includes_str [] k = (k = [])"
| "includes_str (c # cs) k = (prefix k (c # cs) \<or> includes_str cs k)"

subsection \<open>The filter (lines 31 to 65)\<close>

text \<open>The loop of \<open>isContentAppropriate\<close> over a keyword list, first hit returns false.\<close>

fun appropriateFor :: "string list \<Rightarrow> string \<Rightarrow> bool" where
  "appropriateFor [] content = True"
| "appropriateFor (keyword # rest) content =
     (if includes_str (toLowerCase content) keyword then False
      else appropriateFor rest content)"

definition isContentAppropriate :: "string \<Rightarrow> bool" where
  "isContentAppropriate content = appropriateFor inappropriateKeywords content"

definition isDomainExcluded :: "urlParser \<Rightarrow> string \<Rightarrow> jsError + bool" where
  "isDomainExcluded parse link =
     (case parse link of
        None \<Rightarrow> Inl TypeError
      | Some hostname \<Rightarrow> Inr (hostname \<in> set excludedDomains))"

definition getFaviconUrl :: "urlParser \<Rightarrow> string \<Rightarrow> jsError + string" where
  "getFaviconUrl parse link =
     (case parse link of
        None \<Rightarrow> Inl TypeError
      | Some hostname \<Rightarrow> Inr (''https://www.google.com/s2/favicons?domain='' @ hostname))"

text \<open>The three locals of the callback of \<open>items.filter\<close> (lines 52 to 54).\<close>

definition titleOf :: "rawItem \<Rightarrow> string" where
  "titleOf item = orEmpty (item_name item)"

definition snippetOf :: "rawItem \<Rightarrow> string" where
  "snippetOf item = orEmpty (item_snippet item)"

definition linkOf :: "rawItem \<Rightarrow> string" where
  "linkOf item = orEmpty (jsOr (item_url item) (item_contentUrl item))"

text \<open>
  The callback of \<open>items.filter\<close>. \<open>&&\<close> evaluates left to right and stops at the first
  false operand, so the link is parsed only when title and snippet are appropriate.
\<close>

definition keepItem :: "urlParser \<Rightarrow> rawItem \<Rightarrow> jsError + bool" where
  "keepItem parse item =
     (let title = titleOf item;
          snip = snippetOf item;
          link = linkOf item
      in if isContentAppropriate title \<and> isContentAppropriate snip
         then (case isDomainExcluded parse link of
                 Inl e \<Rightarrow> Inl e
               | Inr excluded \<Rightarrow> Inr (\<not> excluded))
         else Inr False)"

text \<open>\<open>Array.prototype.filter\<close>: in order, and a callback that throws ends the walk.\<close>

fun filterItems :: "urlParser \<Rightarrow> rawItem list \<Rightarrow> jsError + rawItem list" where
  "filterItems parse [] = Inr []"
| "filterItems parse (item # items) =
     (case keepItem parse item of
        Inl e \<Rightarrow> Inl e
      | Inr keep \<Rightarrow>
          (case filterItems parse items of
             Inl e \<Rightarrow> Inl e
           | Inr kept \<Rightarrow> Inr (if keep then item # kept else kept)))"

text \<open>The callback of \<open>.map\<close>: the object literal of lines 56 to 64.\<close>

definition toResult :: "urlParser \<Rightarrow> rawItem \<Rightarrow> jsError + SearchResult" where
  "toResult parse item =
     (case getFaviconUrl parse (toUSVString (jsOr (item_url item) (item_contentUrl item))) of
        Inl e \<Rightarrow> Inl e
      | Inr favicon \<Rightarrow>
          Inr \<lparr>name = item_name item,
               url = jsOr (item_url item) (item_contentUrl item),
               snippet = item_snippet item,
               displayUrl = jsOr (item_displayUrl item) (item_contentUrl item),
               faviconUrl = favicon,
               contentUrl = item_contentUrl item,
               thumbnailUrl = item_thumbnailUrl item\<rparr>)"

fun mapItems :: "urlParser \<Rightarrow> rawItem list \<Rightarrow> jsError + SearchResult list" where
  "mapItems parse [] = Inr []"
| "mapItems parse (item # items) =
     (case toResult parse item of
        Inl e \<Rightarrow> Inl e
      | Inr r \<Rightarrow>
          (case mapItems parse items of
             Inl e \<Rightarrow> Inl e
           | Inr rs \<Rightarrow> Inr (r # rs)))"

definition filterResults :: "urlParser \<Rightarrow> rawItem list \<Rightarrow> jsError + SearchResult list" where
  "filterResults parse items =
     (case filterItems parse items of
        Inl e \<Rightarrow> Inl e
      | Inr kept \<Rightarrow> mapItems parse kept)"

subsection \<open>The two rules in the words of the specification\<close>

text \<open>
  Case-insensitive substring containment as the specification states it: both texts are
  lower-cased and the keyword occurs in the content as a contiguous run.
\<close>

definition containsIgnoringCase :: "string \<Rightarrow> string \<Rightarrow> bool" where
  "containsIgnoringCase content keyword = sublist (toLowerCase keyword) (toLowerCase content)"

text \<open>The keyword rule: the title or the snippet contains a blocklisted keyword.\<close>

definition keywordHit :: "rawItem \<Rightarrow> bool" where
  "keywordHit item =
     list_ex (\<lambda>keyword. containsIgnoringCase (titleOf item) keyword
                      \<or> containsIgnoringCase (snippetOf item) keyword)
       inappropriateKeywords"

text \<open>The domain rule: the link parses and its hostname is an entry of the blocklist.\<close>

definition domainHit :: "urlParser \<Rightarrow> rawItem \<Rightarrow> bool" where
  "domainHit parse item =
     (case parse (linkOf item) of
        None \<Rightarrow> False
      | Some hostname \<Rightarrow> list_ex (\<lambda>d. d = hostname) excludedDomains)"

text \<open>A result is the normalised form of an item.\<close>

definition normalises :: "urlParser \<Rightarrow> rawItem \<Rightarrow> SearchResult \<Rightarrow> bool" where
  "normalises parse item r = (toResult parse item = Inr r)"

text \<open>A snippet that the raw item has is the snippet of the result, unchanged.\<close>

definition snippetCopied :: "rawItem \<Rightarrow> SearchResult \<Rightarrow> bool" where
  "snippetCopied item r =
     (case item_snippet item of None \<Rightarrow> True | Some s \<Rightarrow> snippet r = Some s)"

text \<open>The favicon of a result is the favicon service's URL for the hostname of the link.\<close>

definition faviconOfLink :: "urlParser \<Rightarrow> rawItem \<Rightarrow> SearchResult \<Rightarrow> bool" where
  "faviconOfLink parse item r =
     (case parse (linkOf item) of
        None \<Rightarrow> False
      | Some hostname \<Rightarrow> faviconUrl r = ''https://www.google.com/s2/favicons?domain='' @ hostname)"

subsection \<open>The dispatch cycle (lines 67 to 110)\<close>

definition endpointOf :: "category \<Rightarrow> string" where
  "endpointOf searchType =
     (if searchType = Images then ''https://api.bing.microsoft.com/v7.0/images/search''
      else ''https://api.bing.microsoft.com/v7.0/search'')"

text \<open>Lines 70 to 78: the request is built from the query of the state and the page.\<close>

definition buildRequest :: "session \<Rightarrow> category \<Rightarrow> int \<Rightarrow> request" where
  "buildRequest s searchType page =
     (let offset = (page - 1) * resultsPerPage
      in \<lparr>endpoint = endpointOf searchType, param_q = query s,
          param_count = resultsPerPage, param_offset = offset\<rparr>)"

text \<open>Lines 68 and 69: what the state is while the request is in flight.\<close>

definition beginSearch :: "session \<Rightarrow> session" where
  "beginSearch s = s\<lparr>loading := True, error := None\<rparr>"

text \<open>\<open>a || b || 0\<close> on numbers: zero and \<open>undefined\<close> are falsy.\<close>

definition totalOf :: "responseData \<Rightarrow> int" where
  "totalOf d =
     (case data_totalEstimatedMatches d of
        Some n \<Rightarrow> if n \<noteq> 0 then n else
          (case data_webPages d of
             None \<Rightarrow> 0
           | Some w \<Rightarrow> (case webPages_totalEstimatedMatches w of
                          Some m \<Rightarrow> m | None \<Rightarrow> 0))
      | None \<Rightarrow>
          (case data_webPages d of
             None \<Rightarrow> 0
           | Some w \<Rightarrow> (case webPages_totalEstimatedMatches w of
                          Some m \<Rightarrow> m | None \<Rightarrow> 0)))"

text \<open>
  Line 85: where the items are in the response. Reading \<open>.value\<close> of an absent
  \<open>webPages\<close> throws a \<open>TypeError\<close>.
\<close>

definition itemsOf :: "category \<Rightarrow> responseData \<Rightarrow> jsError + rawItem list option" where
  "itemsOf searchType d =
     (if searchType = Images then Inr (data_value d)
      else (case data_webPages d of
              None \<Rightarrow> Inl TypeError
            | Some w \<Rightarrow> Inr (webPages_value w)))"

text \<open>
  The body of the \<open>try\<close> up to the first setter (lines 80 to 88): everything that can
  throw happens before \<open>setResults\<close> is called. Calling \<open>.filter\<close> on an absent item
  list throws a \<open>TypeError\<close>.
\<close>

definition fetchPage :: "urlParser \<Rightarrow> category \<Rightarrow> reply \<Rightarrow> jsError + (SearchResult list \<times> int)" where
  "fetchPage parse searchType r =
     (case r of
        Rejected \<Rightarrow> Inl NetworkError
      | Resolved d \<Rightarrow>
          (case itemsOf searchType d of
             Inl e \<Rightarrow> Inl e
           | Inr items \<Rightarrow>
               (let totalMatches = totalOf d
                in case items of
                     None \<Rightarrow> Inl TypeError
                   | Some its \<Rightarrow>
                       (case filterResults parse its of
                          Inl e \<Rightarrow> Inl e
                        | Inr rs \<Rightarrow> Inr (rs, totalMatches)))))"

text \<open>Lines 88 to 97: the setters of the success path, the \<open>catch\<close> and the \<open>finally\<close>.\<close>

definition settleSearch :: "session \<Rightarrow> int \<Rightarrow> jsError + (SearchResult list \<times> int) \<Rightarrow> session" where
  "settleSearch s page outcome =
     (case outcome of
        Inr (rs, totalMatches) \<Rightarrow>
          s\<lparr>results := rs, totalResults := totalMatches, currentPage := page,
            hasSearched := True, loading := False\<rparr>
      | Inl e \<Rightarrow> s\<lparr>error := Some errorMessage, loading := False\<rparr>)"

text \<open>\<open>handleSearch\<close>: the request it issues and the state once the cycle has settled.\<close>

definition handleSearch ::
  "urlParser \<Rightarrow> network \<Rightarrow> session \<Rightarrow> category \<Rightarrow> int \<Rightarrow> request \<times> session" where
  "handleSearch parse net s searchType page =
     (let req = buildRequest s searchType page
      in (req, settleSearch (beginSearch s) page (fetchPage parse searchType (net req))))"

definition handleTabChange ::
  "urlParser \<Rightarrow> network \<Rightarrow> session \<Rightarrow> category \<Rightarrow> request \<times> session" where
  "handleTabChange parse net s newTab =
     handleSearch parse net (s\<lparr>tab := newTab, results := []\<rparr>) newTab 1"

text \<open>\<open>Math.ceil(totalResults / resultsPerPage)\<close>, over the reals.\<close>

definition pageCount :: "session \<Rightarrow> int" where
  "pageCount s = \<lceil>real_of_int (totalResults s) / real_of_int resultsPerPage\<rceil>"

text \<open>\<open>handlePageChange\<close>: the request it issues, if any, and the state afterwards.\<close>

definition handlePageChange ::
  "urlParser \<Rightarrow> network \<Rightarrow> session \<Rightarrow> int \<Rightarrow> request option \<times> session" where
  "handlePageChange parse net s newPage =
     (if newPage > 0 \<and> newPage \<le> pageCount s
      then (case handleSearch parse net s (tab s) newPage of (req, s') \<Rightarrow> (Some req, s'))
      else (None, s))"

subsection \<open>A URL parser to evaluate examples with\<close>

text \<open>
  A small instance of the parser parameter: it accepts \<open>http://\<close> or \<open>https://\<close> followed
  by a non-empty host of lower-case letters, digits, dots and hyphens that starts with a
  letter, up to the end or the first slash, and answers that host. On the links of the
  examples below it answers what the \<open>URL\<close> constructor answers; the empty string and
  text without a scheme do not parse.
\<close>

definition hostChar :: "char \<Rightarrow> bool" where
  "hostChar c =
     (let n = (of_char c :: nat)
      in (97 \<le> n \<and> n \<le> 122) \<or> (48 \<le> n \<and> n \<le> 57) \<or> n = 45 \<or> n = 46)"

definition hostOfRest :: "string \<Rightarrow> string option" where
  "hostOfRest rest =
     (let host = takeWhile (\<lambda>c. c \<noteq> CHR ''/'') rest
      in if host \<noteq> [] \<and> list_all hostChar host \<and> 97 \<le> (of_char (hd host) :: nat)
         then Some host else None)"

definition exampleParser :: urlParser where
  "exampleParser link =
     (if prefix ''https://'' link then hostOfRest (drop 8 link)
      else if prefix ''http://'' link then hostOfRest (drop 7 link)
      else None)"

subsection \<open>Items, replies and states to evaluate examples with\<close>

text \<open>A web page item and an image item as the API sends them, and an item without links.\<close>

definition webItem :: "string \<Rightarrow> string \<Rightarrow> string \<Rightarrow> rawItem" where
  "webItem title link snip =
     \<lparr>item_name = Some title, item_url = Some link, item_snippet = Some snip,
      item_displayUrl = Some link, item_contentUrl = None, item_thumbnailUrl = None\<rparr>"

definition imageItem :: "string \<Rightarrow> string \<Rightarrow> string \<Rightarrow> rawItem" where
  "imageItem title content thumb =
     \<lparr>item_name = Some title, item_url = None, item_snippet = None,
      item_displayUrl = None, item_contentUrl = Some content, item_thumbnailUrl = Some thumb\<rparr>"

definition linklessItem :: "string \<Rightarrow> rawItem" where
  "linklessItem title =
     \<lparr>item_name = Some title, item_url = None, item_snippet = None,
      item_displayUrl = None, item_contentUrl = None, item_thumbnailUrl = None\<rparr>"

definition goodResult :: SearchResult where
  "goodResult =
     \<lparr>name = Some ''Good page'', url = Some ''https://good.org/a'', snippet = Some ''fine'',
      displayUrl = Some ''https://good.org/a'',
      faviconUrl = ''https://www.google.com/s2/favicons?domain=good.org'',
      contentUrl = None, thumbnailUrl = None\<rparr>"

definition goodWebReply :: reply where
  "goodWebReply =
     Resolved \<lparr>data_value = None,
               data_webPages =
                 Some \<lparr>webPages_value = Some [webItem ''Good page'' ''https://good.org/a'' ''fine''],
                       webPages_totalEstimatedMatches = Some 45\<rparr>,
               data_totalEstimatedMatches = None\<rparr>"

definition mixedWebReply :: reply where
  "mixedWebReply =
     Resolved \<lparr>data_value = None,
               data_webPages =
                 Some \<lparr>webPages_value = Some [webItem ''Good page'' ''https://good.org/a'' ''fine'',
                                              webItem ''Odd page'' ''no scheme here'' ''fine''],
                       webPages_totalEstimatedMatches = Some 45\<rparr>,
               data_totalEstimatedMatches = None\<rparr>"

definition imageReply :: reply where
  "imageReply =
     Resolved \<lparr>data_value =
                 Some [imageItem ''A picture'' ''https://good.org/a.jpg'' ''https://good.org/t.jpg''],
               data_webPages = None,
               data_totalEstimatedMatches = Some 1\<rparr>"

definition session45 :: session where
  "session45 = initialSession\<lparr>totalResults := 45, hasSearched := True\<rparr>"

definition subResult :: SearchResult where
  "subResult =
     \<lparr>name = Some ''Sub shop'', url = Some ''https://sub.example.com/page'',
      snippet = Some ''fine'', displayUrl = Some ''https://sub.example.com/page'',
      faviconUrl = ''https://www.google.com/s2/favicons?domain=sub.example.com'',
      contentUrl = None, thumbnailUrl = None\<rparr>"

section \<open>Supporting lemmas\<close>

subsection \<open>The keyword rule\<close>

lemma includes_str_sublist: "includes_str s k \<longleftrightarrow> sublist k s"
  by (induction s) (auto simp: sublist_Cons_right)

lemma appropriateFor_iff:
  "appropriateFor kws c \<longleftrightarrow> \<not> list_ex (\<lambda>k. sublist k (toLowerCase c)) kws"
  by (induction kws) (auto simp: includes_str_sublist)

lemma keywords_lower: "map toLowerCase inappropriateKeywords = inappropriateKeywords"
  by code_simp

lemma list_ex_map_fixed:
  "map f ks = ks \<Longrightarrow> list_ex (\<lambda>k. P (f k)) ks = list_ex P ks"
proof -
  assume a: "map f ks = ks"
  have "list_ex (\<lambda>k. P (f k)) ks = list_ex P (map f ks)"
    by (simp add: list_ex_iff)
  with a show ?thesis by simp
qed

lemma isContentAppropriate_iff:
  "isContentAppropriate c \<longleftrightarrow> \<not> list_ex (containsIgnoringCase c) inappropriateKeywords"
  unfolding isContentAppropriate_def appropriateFor_iff containsIgnoringCase_def
  using list_ex_map_fixed [OF keywords_lower, of "\<lambda>k. sublist k (toLowerCase c)"]
  by simp

lemma keywordHit_iff:
  "keywordHit item \<longleftrightarrow> \<not> (isContentAppropriate (titleOf item) \<and> isContentAppropriate (snippetOf item))"
  by (auto simp: keywordHit_def isContentAppropriate_iff list_ex_iff)

lemma sublist_map_iff:
  "sublist ys (map f xs) \<longleftrightarrow> (\<exists>w. sublist w xs \<and> map f w = ys)"
  by (auto simp: sublist_def map_eq_append_conv append_eq_map_conv) blast+

lemma keepItem_eq:
  "keepItem parse item =
     (if keywordHit item then Inr False
      else case parse (linkOf item) of
             None \<Rightarrow> Inl TypeError
           | Some h \<Rightarrow> Inr (h \<notin> set excludedDomains))"
  by (simp add: keepItem_def keywordHit_iff isDomainExcluded_def split: option.splits)

lemma keepItem_Inl: "keepItem parse item = Inl e \<Longrightarrow> e = TypeError"
  by (simp add: keepItem_eq split: if_splits option.splits)

lemma keepItem_True_iff:
  "keepItem parse item = Inr True \<longleftrightarrow>
     \<not> keywordHit item \<and> (\<exists>h. parse (linkOf item) = Some h) \<and> \<not> domainHit parse item"
  by (auto simp: keepItem_eq domainHit_def list_ex_iff split: option.splits)

lemma filterItems_Inr:
  "filterItems parse items = Inr kept \<Longrightarrow>
     kept = filter (\<lambda>i. keepItem parse i = Inr True) items"
  by (induction items arbitrary: kept) (auto split: sum.splits if_splits)

lemma filterItems_Inr_all:
  "filterItems parse items = Inr kept \<Longrightarrow> i \<in> set items \<Longrightarrow> \<exists>b. keepItem parse i = Inr b"
  by (induction items arbitrary: kept) (auto split: sum.splits if_splits)

lemma filterItems_Inl: "filterItems parse items = Inl e \<Longrightarrow> e = TypeError"
  by (induction items) (auto split: sum.splits dest: keepItem_Inl)

lemma filterItems_raises:
  "i \<in> set items \<Longrightarrow> keepItem parse i = Inl e \<Longrightarrow> filterItems parse items = Inl TypeError"
proof -
  assume a: "i \<in> set items" "keepItem parse i = Inl e"
  show ?thesis
  proof (cases "filterItems parse items")
    case (Inl e')
    then show ?thesis using filterItems_Inl by blast
  next
    case (Inr kept)
    then show ?thesis using filterItems_Inr_all [OF Inr a(1)] a(2) by simp
  qed
qed

lemma filterItems_total:
  "\<forall>i\<in>set items. \<exists>b. keepItem parse i = Inr b \<Longrightarrow>
     filterItems parse items = Inr (filter (\<lambda>i. keepItem parse i = Inr True) items)"
  by (induction items) (auto split: sum.splits)

lemma linkOf_parsed_truthy:
  "parse [] = None \<Longrightarrow> parse (linkOf item) = Some h \<Longrightarrow>
     \<exists>s. jsOr (item_url item) (item_contentUrl item) = Some s \<and> s \<noteq> [] \<and> linkOf item = s"
  by (cases "jsOr (item_url item) (item_contentUrl item)")
     (auto simp: linkOf_def orEmpty_def split: if_splits)

lemma toResult_kept:
  "parse [] = None \<Longrightarrow> keepItem parse item = Inr True \<Longrightarrow> \<exists>r. toResult parse item = Inr r"
proof -
  assume a: "parse [] = None" "keepItem parse item = Inr True"
  then obtain h where h: "parse (linkOf item) = Some h"
    by (auto simp: keepItem_True_iff)
  from linkOf_parsed_truthy [OF a(1) h] obtain s where
    s: "jsOr (item_url item) (item_contentUrl item) = Some s" "linkOf item = s" by blast
  with h show ?thesis
    by (simp add: toResult_def getFaviconUrl_def toUSVString_def)
qed

lemma mapItems_Inr:
  "mapItems parse kept = Inr rs \<Longrightarrow> list_all2 (normalises parse) kept rs"
  by (induction kept arbitrary: rs) (auto simp: normalises_def split: sum.splits)

lemma mapItems_total:
  "\<forall>i\<in>set kept. \<exists>r. toResult parse i = Inr r \<Longrightarrow> \<exists>rs. mapItems parse kept = Inr rs"
  by (induction kept) (auto split: sum.splits)

lemma filterResults_Inr:
  "filterResults parse items = Inr rs \<Longrightarrow>
     list_all2 (normalises parse) (filter (\<lambda>i. keepItem parse i = Inr True) items) rs"
  by (auto simp: filterResults_def split: sum.splits dest: filterItems_Inr mapItems_Inr)

lemma filterResults_raises:
  "i \<in> set items \<Longrightarrow> \<not> keywordHit i \<Longrightarrow> parse (linkOf i) = None \<Longrightarrow>
     filterResults parse items = Inl TypeError"
proof -
  assume a: "i \<in> set items" "\<not> keywordHit i" "parse (linkOf i) = None"
  then have "keepItem parse i = Inl TypeError" by (simp add: keepItem_eq)
  from filterItems_raises [OF a(1) this] show ?thesis by (simp add: filterResults_def)
qed

lemma filterResults_returns:
  assumes "parse [] = None"
    and "\<forall>i\<in>set items. \<not> keywordHit i \<longrightarrow> parse (linkOf i) \<noteq> None"
  shows "\<exists>rs. filterResults parse items = Inr rs"
proof -
  have "\<forall>i\<in>set items. \<exists>b. keepItem parse i = Inr b"
  proof
    fix i assume "i \<in> set items"
    with assms(2) have "\<not> keywordHit i \<longrightarrow> parse (linkOf i) \<noteq> None" by blast
    then show "\<exists>b. keepItem parse i = Inr b"
      by (cases "keywordHit i") (auto simp: keepItem_eq split: option.splits)
  qed
  then have f: "filterItems parse items = Inr (filter (\<lambda>i. keepItem parse i = Inr True) items)"
    by (rule filterItems_total)
  have "\<exists>rs. mapItems parse (filter (\<lambda>i. keepItem parse i = Inr True) items) = Inr rs"
    using toResult_kept [of parse, OF assms(1)] by (intro mapItems_total) simp
  with f show ?thesis by (simp add: filterResults_def)
qed

lemma exampleParser_empty: "exampleParser [] = None"
  by (simp add: exampleParser_def)

lemma list_all2_setD2:
  "list_all2 P xs ys \<Longrightarrow> y \<in> set ys \<Longrightarrow> \<exists>x\<in>set xs. P x y"
  by (induction rule: list_all2_induct) auto

lemma keepItem_code:
  "keepItem parse item =
     (if isContentAppropriate (titleOf item) \<and> isContentAppropriate (snippetOf item)
      then (case parse (linkOf item) of
              None \<Rightarrow> Inl TypeError
            | Some h \<Rightarrow> Inr (h \<notin> set excludedDomains))
      else Inr False)"
  by (simp add: keepItem_def isDomainExcluded_def split: option.splits)

lemma linkOf_empty:
  "\<not> truthy (item_url item) \<Longrightarrow> \<not> truthy (item_contentUrl item) \<Longrightarrow> linkOf item = []"
  by (auto simp: linkOf_def jsOr_def orEmpty_def truthy_def split: option.splits)

subsection \<open>The dispatch cycle\<close>

lemma pageCount_eq: "pageCount s = - ((- totalResults s) div 20)"
  unfolding pageCount_def resultsPerPage_def
  using ceiling_divide_eq_div [of "totalResults s" 20] by simp

lemma handleSearch_request:
  "fst (handleSearch parse net s searchType page) = buildRequest s searchType page"
  by (simp add: handleSearch_def Let_def)

lemma handleSearch_state:
  "snd (handleSearch parse net s searchType page) =
     settleSearch (beginSearch s) page
       (fetchPage parse searchType (net (buildRequest s searchType page)))"
  by (simp add: handleSearch_def Let_def)

lemma settle_failure:
  "settleSearch (beginSearch s) page (Inl e) = s\<lparr>error := Some errorMessage, loading := False\<rparr>"
  by (simp add: settleSearch_def beginSearch_def)

lemma settle_success:
  "settleSearch (beginSearch s) page (Inr (rs, t)) =
     s\<lparr>results := rs, totalResults := t, currentPage := page, hasSearched := True,
       loading := False, error := None\<rparr>"
  by (simp add: settleSearch_def beginSearch_def)

subsection \<open>What the normaliser copies\<close>

lemma toResult_favicon:
  assumes "parse [] = None" "keepItem parse item = Inr True" "toResult parse item = Inr r"
  shows "faviconOfLink parse item r"
proof -
  from assms(2) obtain h where h: "parse (linkOf item) = Some h"
    by (auto simp: keepItem_True_iff)
  from linkOf_parsed_truthy [OF assms(1) h] obtain u where
    u: "jsOr (item_url item) (item_contentUrl item) = Some u" "linkOf item = u" by blast
  with h assms(3) show ?thesis
    by (auto simp: faviconOfLink_def toResult_def getFaviconUrl_def toUSVString_def)
qed

lemma toResult_snippet: "toResult parse item = Inr r \<Longrightarrow> snippet r = item_snippet item"
  by (auto simp: toResult_def split: sum.splits)

lemma filterResults_kept:
  assumes "filterResults parse items = Inr rs"
  shows "filter (\<lambda>i. keepItem parse i = Inr True) items
         = filter (\<lambda>i. \<not> keywordHit i \<and> \<not> domainHit parse i) items"
proof (rule filter_cong [OF refl])
  fix i assume i: "i \<in> set items"
  from assms obtain kept where "filterItems parse items = Inr kept"
    by (auto simp: filterResults_def split: sum.splits)
  from filterItems_Inr_all [OF this i] obtain b where b: "keepItem parse i = Inr b" ..
  show "(keepItem parse i = Inr True) = (\<not> keywordHit i \<and> \<not> domainHit parse i)"
    using b by (auto simp: keepItem_eq domainHit_def list_ex_iff split: if_splits option.splits)
qed

subsection \<open>Which items are in the output\<close>

lemma list_all2_setD1:
  "list_all2 P xs ys \<Longrightarrow> x \<in> set xs \<Longrightarrow> \<exists>y\<in>set ys. P x y"
  by (induction rule: list_all2_induct) auto

lemma toResult_same_keep:
  "toResult parse i = Inr r \<Longrightarrow> toResult parse j = Inr r \<Longrightarrow> keepItem parse i = keepItem parse j"
  by (auto simp: toResult_def keepItem_def linkOf_def titleOf_def snippetOf_def
           split: sum.splits)

lemma kept_in_output_iff:
  assumes f: "filterResults parse items = Inr rs" and i: "item \<in> set items"
  shows "(\<exists>r\<in>set rs. normalises parse item r) \<longleftrightarrow> keepItem parse item = Inr True"
proof
  assume "keepItem parse item = Inr True"
  with i have "item \<in> set (filter (\<lambda>i. keepItem parse i = Inr True) items)" by simp
  from list_all2_setD1 [OF filterResults_Inr [OF f] this]
  show "\<exists>r\<in>set rs. normalises parse item r" .
next
  assume "\<exists>r\<in>set rs. normalises parse item r"
  then obtain r where r: "r \<in> set rs" "toResult parse item = Inr r"
    by (auto simp: normalises_def)
  from list_all2_setD2 [OF filterResults_Inr [OF f] r(1)]
  obtain j where j: "keepItem parse j = Inr True" "toResult parse j = Inr r"
    by (auto simp: normalises_def)
  from toResult_same_keep [OF r(2) j(2)] j(1) show "keepItem parse item = Inr True" by simp
qed

lemma keyword_examples:
  "\<not> isContentAppropriate ''Buy keyword1 now''"
  "\<not> isContentAppropriate ''Buy KEYWORD1 now''"
  "\<not> isContentAppropriate ''KeyWord3''"
  "isContentAppropriate ''Buy keys and words now''"
  by code_simp+

section \<open>The claims\<close>

subsection \<open>C1: a malformed link in the input of \<open>filterResults\<close>\<close>

text \<open>
  Claim C1 as stated fails. The input below has a page with a well-formed link and a page
  whose link has no scheme; the claim promises the list with the first page, and
  \<open>filterResults\<close> throws the \<open>TypeError\<close> of the \<open>URL\<close> constructor.
\<close>

theorem C1_malformed_link_counterexample:
  "filterResults exampleParser
     [webItem ''Good page'' ''https://good.org/a'' ''fine'',
      webItem ''Odd page'' ''not a url'' ''fine''] = Inl TypeError"
  by code_simp

text \<open>
  Claim C1, amended: \<open>filterResults\<close> does not catch the parse error. When an item of
  the input has a title and a snippet that pass the keyword rule and a link that does not
  parse, \<open>filterResults\<close> throws \<open>TypeError\<close> and returns no list; a \<open>handleSearch\<close> that
  received these items ends in its \<open>catch\<close>, with the error message set and every other
  field of the state as it was. An item that the keyword rule rejects is dropped without
  its link being parsed, malformed or not.
\<close>

theorem C1_malformed_link_raises:
  "(item \<in> set items \<and> isContentAppropriate (titleOf item)
      \<and> isContentAppropriate (snippetOf item) \<and> parse (linkOf item) = None
      \<longrightarrow> filterResults parse items = Inl TypeError
        \<and> (net (buildRequest s searchType page) = Resolved d
             \<and> itemsOf searchType d = Inr (Some items)
           \<longrightarrow> snd (handleSearch parse net s searchType page)
                 = s\<lparr>error := Some errorMessage, loading := False\<rparr>))
   \<and> (\<not> (isContentAppropriate (titleOf item) \<and> isContentAppropriate (snippetOf item))
      \<longrightarrow> keepItem parse item = Inr False)"
proof -
  have a: "filterResults parse items = Inl TypeError"
    if "item \<in> set items" "isContentAppropriate (titleOf item)"
       "isContentAppropriate (snippetOf item)" "parse (linkOf item) = None"
    using that by (intro filterResults_raises [of item]) (simp_all add: keywordHit_iff)
  have b: "snd (handleSearch parse net s searchType page)
                 = s\<lparr>error := Some errorMessage, loading := False\<rparr>"
    if "filterResults parse items = Inl TypeError"
       "net (buildRequest s searchType page) = Resolved d"
       "itemsOf searchType d = Inr (Some items)"
    using that by (simp add: handleSearch_state fetchPage_def settle_failure)
  have c: "keepItem parse item = Inr False"
    if "\<not> (isContentAppropriate (titleOf item) \<and> isContentAppropriate (snippetOf item))"
    using that by (auto simp: keepItem_code)
  from a b c show ?thesis by blast
qed

theorem C1_malformed_link_raises_witness:
  "filterResults exampleParser
     [webItem ''Good page'' ''https://good.org/a'' ''fine'',
      webItem ''Odd page'' ''no scheme here'' ''fine''] = Inl TypeError
   \<and> snd (handleSearch exampleParser (\<lambda>r. mixedWebReply) session45 Web 2)
       = session45\<lparr>error := Some errorMessage, loading := False\<rparr>
   \<and> keepItem exampleParser (webItem ''Buy keyword1 now'' ''no scheme here'' ''fine'') = Inr False"
proof -
  let ?bad = "webItem ''Odd page'' ''no scheme here'' ''fine''"
  let ?items = "[webItem ''Good page'' ''https://good.org/a'' ''fine'', ?bad]"
  let ?blocked = "webItem ''Buy keyword1 now'' ''no scheme here'' ''fine''"
  let ?d = "\<lparr>data_value = None,
             data_webPages = Some \<lparr>webPages_value = Some ?items,
                                   webPages_totalEstimatedMatches = Some 45\<rparr>,
             data_totalEstimatedMatches = None\<rparr>"
  have 1: "?bad \<in> set ?items" by simp
  have 2: "isContentAppropriate (titleOf ?bad)" by code_simp
  have 3: "isContentAppropriate (snippetOf ?bad)" by code_simp
  have 4: "exampleParser (linkOf ?bad) = None" by code_simp
  have 5: "\<not> (isContentAppropriate (titleOf ?blocked) \<and> isContentAppropriate (snippetOf ?blocked))"
    by code_simp
  have 6: "(\<lambda>r. mixedWebReply) (buildRequest session45 Web 2) = Resolved ?d"
    by (simp add: mixedWebReply_def)
  have 7: "itemsOf Web ?d = Inr (Some ?items)" by (simp add: itemsOf_def)
  note k = C1_malformed_link_raises [where item = ?bad and items = ?items
      and parse = exampleParser and net = "\<lambda>r. mixedWebReply" and s = session45
      and searchType = Web and page = 2 and d = ?d]
  from k 1 2 3 4 have a: "filterResults exampleParser ?items = Inl TypeError" by blast
  from k 1 2 3 4 6 7
  have b: "snd (handleSearch exampleParser (\<lambda>r. mixedWebReply) session45 Web 2)
             = session45\<lparr>error := Some errorMessage, loading := False\<rparr>" by blast
  from C1_malformed_link_raises [where item = ?blocked and parse = exampleParser] 5
  have c: "keepItem exampleParser ?blocked = Inr False" by blast
  from a b c show ?thesis by blast
qed

subsection \<open>C2: items without a usable link\<close>

text \<open>
  Claim C2 as stated fails: an item with neither \<open>url\<close> nor \<open>contentUrl\<close> and a harmless
  title is not dropped silently, \<open>filterResults\<close> throws at it.
\<close>

theorem C2_missing_link_counterexample:
  "filterResults exampleParser [linklessItem ''No link at all''] = Inl TypeError"
  by code_simp

text \<open>
  Claim C2, amended. The \<open>URL\<close> constructor rejects the empty string (the hypothesis on
  the parser). An item whose \<open>url\<close> and \<open>contentUrl\<close> are both absent or empty never
  survives: the keyword rule drops it without error when title or snippet hits a keyword,
  and otherwise \<open>filterResults\<close> throws \<open>TypeError\<close> at it and returns no list. Whenever
  \<open>filterResults\<close> returns a list, every result in it has a non-empty \<open>url\<close>.
\<close>

theorem C2_missing_link_never_survives:
  assumes "parse [] = None"
  shows "(\<not> truthy (item_url item) \<and> \<not> truthy (item_contentUrl item)
          \<longrightarrow> keepItem parse item =
                (if isContentAppropriate (titleOf item) \<and> isContentAppropriate (snippetOf item)
                 then Inl TypeError else Inr False)
            \<and> (item \<in> set items \<and> isContentAppropriate (titleOf item)
                 \<and> isContentAppropriate (snippetOf item)
               \<longrightarrow> filterResults parse items = Inl TypeError))
       \<and> (filterResults parse items = Inr rs
          \<longrightarrow> (\<forall>r\<in>set rs. \<exists>u. url r = Some u \<and> u \<noteq> []))"
proof -
  have a: "keepItem parse item =
                (if isContentAppropriate (titleOf item) \<and> isContentAppropriate (snippetOf item)
                 then Inl TypeError else Inr False)"
    if "\<not> truthy (item_url item)" "\<not> truthy (item_contentUrl item)"
    using linkOf_empty [OF that] assms by (simp add: keepItem_code)
  have b: "filterResults parse items = Inl TypeError"
    if "\<not> truthy (item_url item)" "\<not> truthy (item_contentUrl item)" "item \<in> set items"
       "isContentAppropriate (titleOf item)" "isContentAppropriate (snippetOf item)"
    using linkOf_empty [OF that(1,2)] assms that(3,4,5)
    by (intro filterResults_raises [of item]) (simp_all add: keywordHit_iff)
  have c: "\<exists>u. url r = Some u \<and> u \<noteq> []"
    if f: "filterResults parse items = Inr rs" and r: "r \<in> set rs" for r
  proof -
    from list_all2_setD2 [OF filterResults_Inr [OF f] r]
    obtain i where i: "keepItem parse i = Inr True" "toResult parse i = Inr r"
      by (auto simp: normalises_def)
    from i(1) obtain h where h: "parse (linkOf i) = Some h"
      by (auto simp: keepItem_True_iff)
    from linkOf_parsed_truthy [OF assms h] obtain u where
      u: "jsOr (item_url i) (item_contentUrl i) = Some u" "u \<noteq> []" by blast
    from i(2) have "url r = jsOr (item_url i) (item_contentUrl i)"
      by (auto simp: toResult_def split: sum.splits)
    with u show ?thesis by simp
  qed
  from a b c show ?thesis by blast
qed

theorem C2_missing_link_never_survives_witness:
  "exampleParser [] = None
   \<and> keepItem exampleParser (linklessItem ''keyword2 inside'') = Inr False
   \<and> filterResults exampleParser
       [webItem ''Good page'' ''https://good.org/a'' ''fine'', linklessItem ''Plain title'']
       = Inl TypeError
   \<and> filterResults exampleParser
       [webItem ''Good page'' ''https://good.org/a'' ''fine'', linklessItem ''keyword2 inside'']
       = Inr [goodResult]
   \<and> (\<exists>u. url goodResult = Some u \<and> u \<noteq> [])"
proof -
  let ?hit = "linklessItem ''keyword2 inside''"
  let ?plain = "linklessItem ''Plain title''"
  let ?good = "webItem ''Good page'' ''https://good.org/a'' ''fine''"
  have e: "exampleParser [] = None" by (rule exampleParser_empty)
  have 1: "\<not> truthy (item_url ?hit) \<and> \<not> truthy (item_contentUrl ?hit)" by code_simp
  have 2: "\<not> (isContentAppropriate (titleOf ?hit) \<and> isContentAppropriate (snippetOf ?hit))"
    by code_simp
  have 3: "\<not> truthy (item_url ?plain) \<and> \<not> truthy (item_contentUrl ?plain)" by code_simp
  have 4: "?plain \<in> set [?good, ?plain] \<and> isContentAppropriate (titleOf ?plain)
           \<and> isContentAppropriate (snippetOf ?plain)" by code_simp
  have f: "filterResults exampleParser [?good, ?hit] = Inr [goodResult]" by code_simp
  from C2_missing_link_never_survives [where parse = exampleParser and item = ?hit, OF e] 1 2
  have a: "keepItem exampleParser ?hit = Inr False" by auto
  from C2_missing_link_never_survives [where parse = exampleParser and item = ?plain
      and items = "[?good, ?plain]", OF e] 3 4
  have b: "filterResults exampleParser [?good, ?plain] = Inl TypeError" by blast
  from C2_missing_link_never_survives [where parse = exampleParser and items = "[?good, ?hit]"
      and rs = "[goodResult]", OF e] f
  have "\<forall>r\<in>set [goodResult]. \<exists>u. url r = Some u \<and> u \<noteq> []" by blast
  then have c: "\<exists>u. url goodResult = Some u \<and> u \<noteq> []" by simp
  from e a b f c show ?thesis by blast
qed

subsection \<open>C3: the favicon\<close>

text \<open>
  Claim C3 as stated fails: on a link that is not an absolute URL \<open>getFaviconUrl\<close> does
  not answer "no favicon", it throws.
\<close>

theorem C3_favicon_counterexample:
  "getFaviconUrl exampleParser ''no scheme here'' = Inl TypeError"
  by code_simp

text \<open>
  Claim C3, amended: for a link that parses, \<open>getFaviconUrl\<close> returns the favicon
  service's URL with the hostname of the link as its \<open>domain\<close> parameter; for a link that
  does not parse it throws the \<open>TypeError\<close> of the \<open>URL\<close> constructor. Inside
  \<open>filterResults\<close> it is only applied to the items the filter kept, whose links the filter
  has parsed already, so there it never throws and every result carries the favicon of
  its link's hostname (given that the constructor rejects the empty string).
\<close>

theorem C3_favicon_of_hostname:
  "(parse link = Some h
      \<longrightarrow> getFaviconUrl parse link = Inr (''https://www.google.com/s2/favicons?domain='' @ h))
   \<and> (parse link = None \<longrightarrow> getFaviconUrl parse link = Inl TypeError)
   \<and> (parse [] = None \<and> filterItems parse items = Inr kept
      \<longrightarrow> (\<exists>rs. mapItems parse kept = Inr rs \<and> list_all2 (faviconOfLink parse) kept rs))"
proof -
  have c: "\<exists>rs. mapItems parse kept = Inr rs \<and> list_all2 (faviconOfLink parse) kept rs"
    if e: "parse [] = None" and f: "filterItems parse items = Inr kept"
  proof -
    have k: "\<forall>i\<in>set kept. keepItem parse i = Inr True"
      using filterItems_Inr [OF f] by simp
    then have "\<forall>i\<in>set kept. \<exists>r. toResult parse i = Inr r"
      using toResult_kept [of parse, OF e] by blast
    from mapItems_total [OF this] obtain rs where rs: "mapItems parse kept = Inr rs" ..
    have "list_all2 (faviconOfLink parse) kept rs"
      using mapItems_Inr [OF rs]
    proof (rule list.rel_mono_strong)
      fix i r assume "i \<in> set kept" "normalises parse i r"
      with k show "faviconOfLink parse i r"
        using toResult_favicon [of parse, OF e] by (simp add: normalises_def)
    qed
    with rs show ?thesis by blast
  qed
  show ?thesis using c by (simp add: getFaviconUrl_def)
qed

theorem C3_favicon_of_hostname_witness:
  "getFaviconUrl exampleParser ''https://good.org/a''
     = Inr ''https://www.google.com/s2/favicons?domain=good.org''
   \<and> getFaviconUrl exampleParser ''good.org/a'' = Inl TypeError
   \<and> (\<exists>rs. mapItems exampleParser [webItem ''Good page'' ''https://good.org/a'' ''fine''] = Inr rs
        \<and> list_all2 (faviconOfLink exampleParser)
             [webItem ''Good page'' ''https://good.org/a'' ''fine''] rs)"
proof -
  let ?items = "[webItem ''Good page'' ''https://good.org/a'' ''fine'',
                 webItem ''Shop'' ''https://example.com/shop'' ''fine'']"
  let ?kept = "[webItem ''Good page'' ''https://good.org/a'' ''fine'']"
  have 1: "exampleParser ''https://good.org/a'' = Some ''good.org''" by code_simp
  have 2: "exampleParser ''good.org/a'' = None" by code_simp
  have 3: "exampleParser [] = None" by (rule exampleParser_empty)
  have 4: "filterItems exampleParser ?items = Inr ?kept" by code_simp
  from C3_favicon_of_hostname [where parse = exampleParser and link = "''https://good.org/a''"
      and h = "''good.org''"] 1
  have a: "getFaviconUrl exampleParser ''https://good.org/a''
     = Inr ''https://www.google.com/s2/favicons?domain=good.org''" by simp
  from C3_favicon_of_hostname [where parse = exampleParser and link = "''good.org/a''"] 2
  have b: "getFaviconUrl exampleParser ''good.org/a'' = Inl TypeError" by blast
  from C3_favicon_of_hostname [where parse = exampleParser and items = ?items and kept = ?kept] 3 4
  have c: "\<exists>rs. mapItems exampleParser ?kept = Inr rs
        \<and> list_all2 (faviconOfLink exampleParser) ?kept rs" by blast
  from a b c show ?thesis by blast
qed

subsection \<open>C4: the page bound guard\<close>

text \<open>
  Claim C4: a page change to a page below 1 or above \<open>ceil(totalResults / 20)\<close> issues no
  request and returns the state as it is (no error, same page, same results); a page
  change to a page within the bounds issues the request of \<open>handleSearch\<close> for the current
  tab and that page.
\<close>

theorem C4_page_change_guard:
  "(newPage < 1 \<or> newPage > \<lceil>real_of_int (totalResults s) / 20\<rceil>
      \<longrightarrow> handlePageChange parse net s newPage = (None, s))
   \<and> (1 \<le> newPage \<and> newPage \<le> \<lceil>real_of_int (totalResults s) / 20\<rceil>
      \<longrightarrow> handlePageChange parse net s newPage =
            (Some (buildRequest s (tab s) newPage), snd (handleSearch parse net s (tab s) newPage))
          \<and> param_offset (buildRequest s (tab s) newPage) = (newPage - 1) * 20
          \<and> endpoint (buildRequest s (tab s) newPage) = endpointOf (tab s))"
proof -
  have pc: "pageCount s = \<lceil>real_of_int (totalResults s) / 20\<rceil>"
    by (simp add: pageCount_def resultsPerPage_def)
  show ?thesis
    unfolding handlePageChange_def pc
    by (auto simp: handleSearch_def Let_def buildRequest_def resultsPerPage_def)
qed

theorem C4_page_change_guard_witness:
  "handlePageChange exampleParser (\<lambda>r. goodWebReply) session45 4 = (None, session45)
   \<and> handlePageChange exampleParser (\<lambda>r. goodWebReply) session45 0 = (None, session45)
   \<and> fst (handlePageChange exampleParser (\<lambda>r. goodWebReply) session45 3)
       = Some \<lparr>endpoint = ''https://api.bing.microsoft.com/v7.0/search'', param_q = [],
               param_count = 20, param_offset = 40\<rparr>"
proof -
  have t: "totalResults session45 = 45" by (simp add: session45_def)
  have a: "handlePageChange exampleParser (\<lambda>r. goodWebReply) session45 4 = (None, session45)"
    using C4_page_change_guard [of 4 session45 exampleParser "\<lambda>r. goodWebReply"] by (simp add: t)
  have b: "handlePageChange exampleParser (\<lambda>r. goodWebReply) session45 0 = (None, session45)"
    using C4_page_change_guard [of 0 session45 exampleParser "\<lambda>r. goodWebReply"] by (simp add: t)
  have c: "fst (handlePageChange exampleParser (\<lambda>r. goodWebReply) session45 3)
       = Some (buildRequest session45 (tab session45) 3)"
    using C4_page_change_guard [of 3 session45 exampleParser "\<lambda>r. goodWebReply"] by (simp add: t)
  have d: "buildRequest session45 (tab session45) 3 =
      \<lparr>endpoint = ''https://api.bing.microsoft.com/v7.0/search'', param_q = [],
               param_count = 20, param_offset = 40\<rparr>"
    by (simp add: buildRequest_def session45_def initialSession_def endpointOf_def resultsPerPage_def)
  from a b c d show ?thesis by simp
qed

subsection \<open>C5: the keyword rule\<close>

text \<open>
  Claim C5 as stated fails. The first page below contains no keyword and its host is not
  on the domain blocklist, so the claim has it retained; the second page has a link
  without a scheme, \<open>filterResults\<close> throws at it and nothing is retained.
\<close>

theorem C5_clean_result_counterexample:
  "isContentAppropriate ''Clean page''
   \<and> isContentAppropriate ''nothing blocked''
   \<and> isDomainExcluded exampleParser ''https://clean.org/a'' = Inr False
   \<and> filterResults exampleParser
       [webItem ''Clean page'' ''https://clean.org/a'' ''nothing blocked'',
        webItem ''Broken'' ''www.broken.org'' ''fine''] = Inl TypeError"
  by code_simp

text \<open>
  Claim C5, amended. A text is inappropriate exactly when it contains a blocklisted
  keyword as a substring, letter case ignored: some contiguous run of the text equals the
  keyword up to case (\<open>Buy keyword1 now\<close> and \<open>Buy KEYWORD1 now\<close> are inappropriate,
  \<open>Buy keys and words now\<close> is not). An item whose title or snippet does is dropped
  without error. Whenever \<open>filterResults\<close> returns a list, the list is the normalised
  items that hit neither the keyword rule nor the domain rule, in the order of the input,
  and no item that hits the keyword rule has its normalised form in it. \<open>filterResults\<close>
  returns a list when the link of every item that passes the keyword rule parses; when
  the link of such an item does not parse it throws \<open>TypeError\<close> and retains nothing.
\<close>

theorem C5_keyword_rule:
  "(isContentAppropriate content
      \<longleftrightarrow> \<not> list_ex (containsIgnoringCase content) inappropriateKeywords)
   \<and> (containsIgnoringCase content keyword
      \<longleftrightarrow> (\<exists>w. sublist w content \<and> toLowerCase w = toLowerCase keyword))
   \<and> \<not> isContentAppropriate ''Buy keyword1 now''
   \<and> \<not> isContentAppropriate ''Buy KEYWORD1 now''
   \<and> isContentAppropriate ''Buy keys and words now''
   \<and> (keywordHit item \<longrightarrow> keepItem parse item = Inr False)
   \<and> (filterResults parse items = Inr rs
      \<longrightarrow> list_all2 (normalises parse)
            (filter (\<lambda>i. \<not> keywordHit i \<and> \<not> domainHit parse i) items) rs)
   \<and> (filterResults parse items = Inr rs \<and> item \<in> set items \<and> keywordHit item
      \<longrightarrow> \<not> (\<exists>r\<in>set rs. normalises parse item r))
   \<and> (parse [] = None \<and> (\<forall>i\<in>set items. \<not> keywordHit i \<longrightarrow> parse (linkOf i) \<noteq> None)
      \<longrightarrow> (\<exists>rs. filterResults parse items = Inr rs))
   \<and> (item \<in> set items \<and> \<not> keywordHit item \<and> parse (linkOf item) = None
      \<longrightarrow> filterResults parse items = Inl TypeError)"
proof -
  have a: "isContentAppropriate content
      \<longleftrightarrow> \<not> list_ex (containsIgnoringCase content) inappropriateKeywords"
    by (rule isContentAppropriate_iff)
  have b: "containsIgnoringCase content keyword
      \<longleftrightarrow> (\<exists>w. sublist w content \<and> toLowerCase w = toLowerCase keyword)"
    unfolding containsIgnoringCase_def toLowerCase_def by (rule sublist_map_iff)
  have c: "keywordHit item \<longrightarrow> keepItem parse item = Inr False"
    by (simp add: keepItem_eq)
  have d: "filterResults parse items = Inr rs
      \<longrightarrow> list_all2 (normalises parse)
            (filter (\<lambda>i. \<not> keywordHit i \<and> \<not> domainHit parse i) items) rs"
    using filterResults_Inr [of parse items rs] filterResults_kept [of parse items rs] by simp
  have e: "parse [] = None \<and> (\<forall>i\<in>set items. \<not> keywordHit i \<longrightarrow> parse (linkOf i) \<noteq> None)
      \<longrightarrow> (\<exists>rs. filterResults parse items = Inr rs)"
    using filterResults_returns [of parse items] by blast
  have f: "filterResults parse items = Inr rs \<and> item \<in> set items \<and> keywordHit item
      \<longrightarrow> \<not> (\<exists>r\<in>set rs. normalises parse item r)"
    using kept_in_output_iff [of parse items rs item] by (auto simp: keepItem_eq)
  have g: "item \<in> set items \<and> \<not> keywordHit item \<and> parse (linkOf item) = None
      \<longrightarrow> filterResults parse items = Inl TypeError"
    using filterResults_raises [of item items parse] by blast
  from a b c d e f g keyword_examples(1,2,4) show ?thesis by blast
qed

theorem C5_keyword_rule_witness:
  "keepItem exampleParser (webItem ''Buy KEYWORD1 now'' ''https://shop.net/k'' ''fine'') = Inr False
   \<and> list_all2 (normalises exampleParser)
        (filter (\<lambda>i. \<not> keywordHit i \<and> \<not> domainHit exampleParser i)
           [webItem ''Buy KEYWORD1 now'' ''https://shop.net/k'' ''fine'',
            webItem ''Good page'' ''https://good.org/a'' ''fine'',
            webItem ''Other'' ''https://other.org/b'' ''has Keyword3 inside''])
        [goodResult]
   \<and> \<not> (\<exists>r\<in>set [goodResult].
           normalises exampleParser (webItem ''Buy KEYWORD1 now'' ''https://shop.net/k'' ''fine'') r)
   \<and> (\<exists>rs. filterResults exampleParser
           [webItem ''Buy KEYWORD1 now'' ''https://shop.net/k'' ''fine'',
            webItem ''Good page'' ''https://good.org/a'' ''fine'',
            webItem ''Other'' ''https://other.org/b'' ''has Keyword3 inside''] = Inr rs)
   \<and> filterResults exampleParser
        [webItem ''Good page'' ''https://good.org/a'' ''fine'',
         webItem ''Broken'' ''www.broken.org'' ''fine''] = Inl TypeError"
proof -
  let ?blocked = "webItem ''Buy KEYWORD1 now'' ''https://shop.net/k'' ''fine''"
  let ?good = "webItem ''Good page'' ''https://good.org/a'' ''fine''"
  let ?broken = "webItem ''Broken'' ''www.broken.org'' ''fine''"
  let ?items = "[?blocked, ?good,
            webItem ''Other'' ''https://other.org/b'' ''has Keyword3 inside'']"
  have 1: "keywordHit ?blocked" by code_simp
  have 2: "filterResults exampleParser ?items = Inr [goodResult]" by code_simp
  have 3: "exampleParser [] = None" by (rule exampleParser_empty)
  have 4: "\<forall>i\<in>set ?items. \<not> keywordHit i \<longrightarrow> exampleParser (linkOf i) \<noteq> None"
    by code_simp
  have 5: "?blocked \<in> set ?items" by simp
  have 6: "?broken \<in> set [?good, ?broken] \<and> \<not> keywordHit ?broken
           \<and> exampleParser (linkOf ?broken) = None" by code_simp
  note k = C5_keyword_rule [where parse = exampleParser and item = ?blocked and items = ?items
      and rs = "[goodResult]"]
  from k 1 have a: "keepItem exampleParser ?blocked = Inr False" by blast
  from k 2 have b: "list_all2 (normalises exampleParser)
        (filter (\<lambda>i. \<not> keywordHit i \<and> \<not> domainHit exampleParser i) ?items) [goodResult]"
    by blast
  from k 1 2 5 have c: "\<not> (\<exists>r\<in>set [goodResult]. normalises exampleParser ?blocked r)"
    by blast
  from k 3 4 have d: "\<exists>rs. filterResults exampleParser ?items = Inr rs" by blast
  from C5_keyword_rule [where parse = exampleParser and item = ?broken
      and items = "[?good, ?broken]"] 6
  have e: "filterResults exampleParser [?good, ?broken] = Inl TypeError" by blast
  from a b c d e show ?thesis by blast
qed

subsection \<open>C6: the domain rule\<close>

text \<open>
  Claim C6 as stated fails. The first page below has the hostname \<open>sub.example.com\<close> and
  passes the keyword rule, so the claim has it retained; the second page has a link
  without a scheme, \<open>filterResults\<close> throws at it and nothing is retained.
\<close>

theorem C6_subdomain_counterexample:
  "isContentAppropriate ''Sub shop''
   \<and> isContentAppropriate ''fine''
   \<and> exampleParser ''https://sub.example.com/page'' = Some ''sub.example.com''
   \<and> filterResults exampleParser
       [webItem ''Sub shop'' ''https://sub.example.com/page'' ''fine'',
        webItem ''Bare host'' ''example.com'' ''fine''] = Inl TypeError"
  by code_simp

text \<open>
  Claim C6, amended. \<open>isDomainExcluded\<close> answers true exactly when the hostname of the
  link is \<open>example.com\<close> or \<open>anotherexample.com\<close>, the two entries of the blocklist; a
  hostname that is an entry hits the domain rule, \<open>sub.\<close> in front of an entry does not.
  Whenever \<open>filterResults\<close> returns a list, an item of the input that passes the keyword
  rule has a link that parses, and its normalised form is in the list exactly when the
  hostname of that link is not an entry of the blocklist; the list is the normalised
  items that hit neither rule, in the order of the input. When the link of an item that
  passes the keyword rule does not parse, \<open>filterResults\<close> throws \<open>TypeError\<close> and retains
  nothing, whatever the hostnames of the other items.
\<close>

theorem C6_domain_rule:
  "(parse link = Some h
      \<longrightarrow> isDomainExcluded parse link = Inr (h = ''example.com'' \<or> h = ''anotherexample.com''))
   \<and> (d \<in> set excludedDomains \<and> parse (linkOf item) = Some d \<longrightarrow> domainHit parse item)
   \<and> (d \<in> set excludedDomains \<and> parse (linkOf item) = Some (''sub.'' @ d)
      \<longrightarrow> \<not> domainHit parse item)
   \<and> (filterResults parse items = Inr rs \<and> item \<in> set items
        \<and> isContentAppropriate (titleOf item) \<and> isContentAppropriate (snippetOf item)
      \<longrightarrow> (\<exists>hostname. parse (linkOf item) = Some hostname
            \<and> ((\<exists>r\<in>set rs. normalises parse item r)
                 \<longleftrightarrow> hostname \<noteq> ''example.com'' \<and> hostname \<noteq> ''anotherexample.com'')))
   \<and> (filterResults parse items = Inr rs
      \<longrightarrow> list_all2 (normalises parse)
            (filter (\<lambda>i. \<not> keywordHit i \<and> \<not> domainHit parse i) items) rs)
   \<and> (item \<in> set items \<and> isContentAppropriate (titleOf item)
        \<and> isContentAppropriate (snippetOf item) \<and> parse (linkOf item) = None
      \<longrightarrow> filterResults parse items = Inl TypeError)"
proof -
  have a: "parse link = Some h
      \<longrightarrow> isDomainExcluded parse link = Inr (h = ''example.com'' \<or> h = ''anotherexample.com'')"
    by (auto simp: isDomainExcluded_def excludedDomains_def)
  have b: "d \<in> set excludedDomains \<and> parse (linkOf item) = Some d \<longrightarrow> domainHit parse item"
    by (auto simp: domainHit_def list_ex_iff)
  have c: "d \<in> set excludedDomains \<and> parse (linkOf item) = Some (''sub.'' @ d)
      \<longrightarrow> \<not> domainHit parse item"
    by (auto simp: domainHit_def list_ex_iff excludedDomains_def)
  have e: "\<exists>hostname. parse (linkOf item) = Some hostname
            \<and> ((\<exists>r\<in>set rs. normalises parse item r)
                 \<longleftrightarrow> hostname \<noteq> ''example.com'' \<and> hostname \<noteq> ''anotherexample.com'')"
    if f: "filterResults parse items = Inr rs" and i: "item \<in> set items"
      and k: "isContentAppropriate (titleOf item)" "isContentAppropriate (snippetOf item)"
  proof -
    from f obtain kept where "filterItems parse items = Inr kept"
      by (auto simp: filterResults_def split: sum.splits)
    from filterItems_Inr_all [OF this i] obtain keep where "keepItem parse item = Inr keep" ..
    with k obtain hostname where h: "parse (linkOf item) = Some hostname"
      by (auto simp: keepItem_code split: option.splits)
    with k have "keepItem parse item = Inr True
        \<longleftrightarrow> hostname \<noteq> ''example.com'' \<and> hostname \<noteq> ''anotherexample.com''"
      by (auto simp: keepItem_code excludedDomains_def)
    with kept_in_output_iff [OF f i] h show ?thesis by simp
  qed
  have g: "filterResults parse items = Inr rs
      \<longrightarrow> list_all2 (normalises parse)
            (filter (\<lambda>i. \<not> keywordHit i \<and> \<not> domainHit parse i) items) rs"
    using filterResults_Inr [of parse items rs] filterResults_kept [of parse items rs] by simp
  have r: "item \<in> set items \<and> isContentAppropriate (titleOf item)
        \<and> isContentAppropriate (snippetOf item) \<and> parse (linkOf item) = None
      \<longrightarrow> filterResults parse items = Inl TypeError"
    using filterResults_raises [of item items parse] by (simp add: keywordHit_iff)
  from a b c e g r show ?thesis by blast
qed

theorem C6_domain_rule_witness:
  "isDomainExcluded exampleParser ''https://example.com/page'' = Inr True
   \<and> isDomainExcluded exampleParser ''https://sub.example.com/page'' = Inr False
   \<and> filterResults exampleParser
       [webItem ''Shop'' ''https://example.com/page'' ''fine'',
        webItem ''Sub shop'' ''https://sub.example.com/page'' ''fine''] = Inr [subResult]
   \<and> \<not> (\<exists>r\<in>set [subResult].
           normalises exampleParser (webItem ''Shop'' ''https://example.com/page'' ''fine'') r)
   \<and> (\<exists>r\<in>set [subResult].
           normalises exampleParser (webItem ''Sub shop'' ''https://sub.example.com/page'' ''fine'') r)
   \<and> domainHit exampleParser (webItem ''Shop'' ''https://example.com/page'' ''fine'')
   \<and> \<not> domainHit exampleParser (webItem ''Sub shop'' ''https://sub.example.com/page'' ''fine'')"
proof -
  let ?a = "webItem ''Shop'' ''https://example.com/page'' ''fine''"
  let ?b = "webItem ''Sub shop'' ''https://sub.example.com/page'' ''fine''"
  have 1: "exampleParser ''https://example.com/page'' = Some ''example.com''" by code_simp
  have 2: "exampleParser ''https://sub.example.com/page'' = Some ''sub.example.com''"
    by code_simp
  have f: "filterResults exampleParser [?a, ?b] = Inr [subResult]" by code_simp
  have 3: "filterResults exampleParser [?a, ?b] = Inr [subResult] \<and> ?a \<in> set [?a, ?b]
           \<and> isContentAppropriate (titleOf ?a) \<and> isContentAppropriate (snippetOf ?a)"
    by code_simp
  have 4: "filterResults exampleParser [?a, ?b] = Inr [subResult] \<and> ?b \<in> set [?a, ?b]
           \<and> isContentAppropriate (titleOf ?b) \<and> isContentAppropriate (snippetOf ?b)"
    by code_simp
  have 5: "''example.com'' \<in> set excludedDomains
           \<and> exampleParser (linkOf ?a) = Some ''example.com''" by code_simp
  have 6: "''example.com'' \<in> set excludedDomains
           \<and> exampleParser (linkOf ?b) = Some (''sub.'' @ ''example.com'')" by code_simp
  have a: "isDomainExcluded exampleParser ''https://example.com/page'' = Inr True"
    using C6_domain_rule [where parse = exampleParser and link = "''https://example.com/page''"
      and h = "''example.com''", THEN conjunct1, THEN mp, OF 1] by simp
  have b: "isDomainExcluded exampleParser ''https://sub.example.com/page'' = Inr False"
    using C6_domain_rule [where parse = exampleParser
      and link = "''https://sub.example.com/page''" and h = "''sub.example.com''",
      THEN conjunct1, THEN mp, OF 2] by simp
  note inA = C6_domain_rule [where parse = exampleParser and item = ?a and items = "[?a, ?b]"
      and rs = "[subResult]", THEN conjunct2, THEN conjunct2, THEN conjunct2, THEN conjunct1,
      THEN mp, OF 3]
  note inB = C6_domain_rule [where parse = exampleParser and item = ?b and items = "[?a, ?b]"
      and rs = "[subResult]", THEN conjunct2, THEN conjunct2, THEN conjunct2, THEN conjunct1,
      THEN mp, OF 4]
  have c: "\<not> (\<exists>r\<in>set [subResult]. normalises exampleParser ?a r)"
    using inA 5 by (elim exE conjE) simp
  have d: "\<exists>r\<in>set [subResult]. normalises exampleParser ?b r"
    using inB 6 by (elim exE conjE) simp
  have e: "domainHit exampleParser ?a"
    using C6_domain_rule [where parse = exampleParser and item = ?a and d = "''example.com''",
      THEN conjunct2, THEN conjunct1, THEN mp, OF 5] .
  have g: "\<not> domainHit exampleParser ?b"
    using C6_domain_rule [where parse = exampleParser and item = ?b and d = "''example.com''",
      THEN conjunct2, THEN conjunct2, THEN conjunct1, THEN mp, OF 6] .
  show ?thesis
    by (intro conjI) (rule a b f c d e g)+
qed

subsection \<open>C7: a failed fetch keeps the last good page\<close>

text \<open>
  Claim C7: when a \<open>handleSearch\<close> succeeded with the results \<open>rs\<close> and the next
  \<open>handleSearch\<close> fails (the request is rejected, the response lacks the items, or the
  filter throws), the state afterwards still has the results \<open>rs\<close>, the page and the total
  of the successful fetch, the error message is set and \<open>loading\<close> is false.
\<close>

theorem C7_failure_keeps_results:
  assumes "fetchPage parse firstType (firstNet (buildRequest s firstType firstPage)) = Inr (rs, t)"
    and "fetchPage parse nextType (nextNet (buildRequest (snd (handleSearch parse firstNet s firstType firstPage)) nextType nextPage)) = Inl e"
  shows "results (snd (handleSearch parse firstNet s firstType firstPage)) = rs
    \<and> results (snd (handleSearch parse nextNet (snd (handleSearch parse firstNet s firstType firstPage)) nextType nextPage)) = rs
    \<and> error (snd (handleSearch parse nextNet (snd (handleSearch parse firstNet s firstType firstPage)) nextType nextPage)) = Some errorMessage
    \<and> \<not> loading (snd (handleSearch parse nextNet (snd (handleSearch parse firstNet s firstType firstPage)) nextType nextPage))
    \<and> currentPage (snd (handleSearch parse nextNet (snd (handleSearch parse firstNet s firstType firstPage)) nextType nextPage)) = firstPage
    \<and> totalResults (snd (handleSearch parse nextNet (snd (handleSearch parse firstNet s firstType firstPage)) nextType nextPage)) = t"
proof -
  let ?first = "snd (handleSearch parse firstNet s firstType firstPage)"
  have after_first: "?first = s\<lparr>results := rs, totalResults := t, currentPage := firstPage, hasSearched := True,
       loading := False, error := None\<rparr>"
    using assms(1) by (simp add: handleSearch_state settle_success)
  have after_next: "snd (handleSearch parse nextNet ?first nextType nextPage) = ?first\<lparr>error := Some errorMessage, loading := False\<rparr>"
    using assms(2) by (simp only: handleSearch_state [of parse nextNet ?first] settle_failure)
  show ?thesis unfolding after_next unfolding after_first by simp
qed

theorem C7_failure_keeps_results_witness:
  "results (snd (handleSearch exampleParser (\<lambda>r. goodWebReply) initialSession Web 1)) = [goodResult]
   \<and> results (snd (handleSearch exampleParser (\<lambda>r. Rejected)
        (snd (handleSearch exampleParser (\<lambda>r. goodWebReply) initialSession Web 1)) Web 2))
       = [goodResult]
   \<and> error (snd (handleSearch exampleParser (\<lambda>r. Rejected)
        (snd (handleSearch exampleParser (\<lambda>r. goodWebReply) initialSession Web 1)) Web 2))
       = Some errorMessage
   \<and> currentPage (snd (handleSearch exampleParser (\<lambda>r. Rejected)
        (snd (handleSearch exampleParser (\<lambda>r. goodWebReply) initialSession Web 1)) Web 2)) = 1"
proof -
  have 1: "fetchPage exampleParser Web
             ((\<lambda>r. goodWebReply) (buildRequest initialSession Web 1)) = Inr ([goodResult], 45)"
    by code_simp
  have 2: "fetchPage exampleParser Web ((\<lambda>r. Rejected)
             (buildRequest (snd (handleSearch exampleParser (\<lambda>r. goodWebReply) initialSession Web 1))
                Web 2)) = Inl NetworkError"
    by (simp add: fetchPage_def)
  from C7_failure_keeps_results [where parse = exampleParser and firstType = Web
      and firstNet = "\<lambda>r. goodWebReply" and s = initialSession and firstPage = 1 and rs = "[goodResult]"
      and t = 45 and nextType = Web and nextNet = "\<lambda>r. Rejected" and nextPage = 2 and e = NetworkError,
      OF 1 2]
  show ?thesis by blast
qed

subsection \<open>C8: the offset of a page\<close>

text \<open>
  Claim C8: the request that \<open>handleSearch\<close> issues for a page has the offset
  \<open>(page - 1) * 20\<close> and the count 20; page 1 gives offset 0 and page 3 gives offset 40.
\<close>

theorem C8_page_offset:
  "param_offset (fst (handleSearch parse net s searchType page)) = (page - 1) * 20
   \<and> param_count (fst (handleSearch parse net s searchType page)) = 20
   \<and> param_offset (fst (handleSearch parse net s searchType 1)) = 0
   \<and> param_offset (fst (handleSearch parse net s searchType 3)) = 40"
  by (simp add: handleSearch_request buildRequest_def resultsPerPage_def)

theorem C8_page_offset_witness:
  "param_offset (fst (handleSearch exampleParser (\<lambda>r. Rejected) initialSession Images 7)) = 120
   \<and> param_count (fst (handleSearch exampleParser (\<lambda>r. Rejected) initialSession Images 7)) = 20"
  using C8_page_offset [of exampleParser "\<lambda>r. Rejected" initialSession Images 7] by simp

subsection \<open>C9: the snippet of a result\<close>

text \<open>
  Claim C9 as stated fails. A web item without a snippet is normalised to a result whose
  snippet is absent, not the empty string, and so is an image item as the API sends it;
  an image item that carries a snippet keeps it.
\<close>

theorem C9_snippet_counterexample:
  "fetchPage exampleParser Web
     (Resolved \<lparr>data_value = None,
                data_webPages = Some \<lparr>webPages_value =
                    Some [\<lparr>item_name = Some ''Good page'', item_url = Some ''https://good.org/a'',
                           item_snippet = None, item_displayUrl = None,
                           item_contentUrl = None, item_thumbnailUrl = None\<rparr>],
                  webPages_totalEstimatedMatches = Some 1\<rparr>,
                data_totalEstimatedMatches = None\<rparr>)
     = Inr ([\<lparr>name = Some ''Good page'', url = Some ''https://good.org/a'', snippet = None,
              displayUrl = None,
              faviconUrl = ''https://www.google.com/s2/favicons?domain=good.org'',
              contentUrl = None, thumbnailUrl = None\<rparr>], 1)
   \<and> fetchPage exampleParser Images imageReply
     = Inr ([\<lparr>name = Some ''A picture'', url = Some ''https://good.org/a.jpg'',
              snippet = None, displayUrl = Some ''https://good.org/a.jpg'',
              faviconUrl = ''https://www.google.com/s2/favicons?domain=good.org'',
              contentUrl = Some ''https://good.org/a.jpg'',
              thumbnailUrl = Some ''https://good.org/t.jpg''\<rparr>], 1)
   \<and> fetchPage exampleParser Images
     (Resolved \<lparr>data_value =
                  Some [\<lparr>item_name = Some ''A picture'', item_url = None,
                         item_snippet = Some ''A caption'', item_displayUrl = None,
                         item_contentUrl = Some ''https://good.org/a.jpg'',
                         item_thumbnailUrl = Some ''https://good.org/t.jpg''\<rparr>],
                data_webPages = None,
                data_totalEstimatedMatches = Some 1\<rparr>)
     = Inr ([\<lparr>name = Some ''A picture'', url = Some ''https://good.org/a.jpg'',
              snippet = Some ''A caption'', displayUrl = Some ''https://good.org/a.jpg'',
              faviconUrl = ''https://www.google.com/s2/favicons?domain=good.org'',
              contentUrl = Some ''https://good.org/a.jpg'',
              thumbnailUrl = Some ''https://good.org/t.jpg''\<rparr>], 1)"
  by code_simp

text \<open>
  Claim C9, amended: the normaliser does not look at the category. For every raw item
  that has a snippet, of a web response or of an image response, the snippet of the
  result is that snippet, unchanged.
\<close>

theorem C9_snippet_copied:
  "(toResult parse item = Inr r \<and> item_snippet item = Some s \<longrightarrow> snippet r = Some s)
   \<and> (fetchPage parse searchType (Resolved d) = Inr (rs, t)
      \<longrightarrow> (\<exists>items. itemsOf searchType d = Inr (Some items)
            \<and> list_all2 snippetCopied (filter (\<lambda>i. keepItem parse i = Inr True) items) rs))"
proof -
  have a: "toResult parse item = Inr r \<and> item_snippet item = Some s \<longrightarrow> snippet r = Some s"
    using toResult_snippet [of parse item r] by simp
  have b: "\<exists>items. itemsOf searchType d = Inr (Some items)
            \<and> list_all2 snippetCopied (filter (\<lambda>i. keepItem parse i = Inr True) items) rs"
    if f: "fetchPage parse searchType (Resolved d) = Inr (rs, t)"
  proof -
    from f obtain items where i: "itemsOf searchType d = Inr (Some items)"
      and r: "filterResults parse items = Inr rs"
      by (auto simp: fetchPage_def Let_def split: sum.splits option.splits)
    have "list_all2 snippetCopied (filter (\<lambda>i. keepItem parse i = Inr True) items) rs"
      using filterResults_Inr [OF r]
    proof (rule list_all2_mono)
      fix i r assume "normalises parse i r"
      then show "snippetCopied i r"
        using toResult_snippet [of parse i r]
        by (simp add: normalises_def snippetCopied_def split: option.splits)
    qed
    with i show ?thesis by blast
  qed
  from a b show ?thesis by blast
qed

theorem C9_snippet_copied_witness:
  "snippet goodResult = Some ''fine''
   \<and> (\<exists>items. itemsOf Web
        \<lparr>data_value = None,
         data_webPages =
           Some \<lparr>webPages_value = Some [webItem ''Good page'' ''https://good.org/a'' ''fine''],
                 webPages_totalEstimatedMatches = Some 45\<rparr>,
         data_totalEstimatedMatches = None\<rparr> = Inr (Some items)
        \<and> list_all2 snippetCopied (filter (\<lambda>i. keepItem exampleParser i = Inr True) items)
             [goodResult])"
proof -
  let ?item = "webItem ''Good page'' ''https://good.org/a'' ''fine''"
  let ?d = "\<lparr>data_value = None,
         data_webPages = Some \<lparr>webPages_value = Some [?item],
                 webPages_totalEstimatedMatches = Some 45\<rparr>,
         data_totalEstimatedMatches = None\<rparr>"
  have 1: "toResult exampleParser ?item = Inr goodResult \<and> item_snippet ?item = Some ''fine''"
    by code_simp
  have 2: "fetchPage exampleParser Web (Resolved ?d) = Inr ([goodResult], 45)" by code_simp
  note k = C9_snippet_copied [where parse = exampleParser and item = ?item and r = goodResult
      and s = "''fine''" and searchType = Web and d = ?d and rs = "[goodResult]" and t = 45]
  from k 1 have a: "snippet goodResult = Some ''fine''" by blast
  from k 2 have b: "\<exists>items. itemsOf Web ?d = Inr (Some items)
        \<and> list_all2 snippetCopied (filter (\<lambda>i. keepItem exampleParser i = Inr True) items)
             [goodResult]" by blast
  from a b show ?thesis by blast
qed

subsection \<open>C10: the error message is cleared at the start of a cycle\<close>



end
